theory Spec2Isabelle
  imports Complex_Main
begin

section \<open>Python primitives used by the agent\<close>

text \<open>
  Strings are \<open>char list\<close>, one \<open>char\<close> per code point: the 8-bit characters of the
  model are the code points below 256, and the string functions below follow Python on
  that range. A text with a code point from 256 on has no counterpart here, and the
  theorems about arbitrary replies and action texts assume ASCII text (\<open>is_ascii\<close>), so
  that they do not depend on how other text would be represented.

  Python floats are modelled by exact rationals, and a decimal literal read by \<open>float\<close>
  by its exact decimal value; infinities and NaN are not values of the model. The floats
  that decide a branch in the theorems below (0.5, 959.5, integer offsets and sums of
  magnitude below \<open>2^53\<close>) are exactly representable in binary64, or they are compared
  with a value far from any rounding boundary (the powers of 0.8 against the threshold
  0.1). Where a binary64 operation would round, the model does not: the theorems keep to
  inputs on which it does not.
\<close>

datatype py_error = ValueError | OverflowError | BinasciiError | OSError

text \<open>\<open>round(x)\<close> on a float: to the nearest integer, ties to the even one.\<close>

definition py_round :: "rat \<Rightarrow> int" where
  "py_round q =
     (let f = \<lfloor>q\<rfloor>; d = q - of_int f
      in if d < 1 / 2 then f
         else if 1 / 2 < d then f + 1
         else if even f then f else f + 1)"

text \<open>\<open>int(x)\<close> on a float: truncation towards zero.\<close>

definition py_int :: "rat \<Rightarrow> int" where
  "py_int q = (if 0 \<le> q then \<lfloor>q\<rfloor> else \<lceil>q\<rceil>)"

text \<open>\<open>max(0.0, min(1.0, r))\<close>, as written in both \<open>_transform_coords\<close> and
  \<open>_extract_coords\<close>.\<close>

definition clamp_ratio :: "rat \<Rightarrow> rat" where
  "clamp_ratio r = max 0 (min 1 r)"

section \<open>Input synthesizer: coordinates (harvey.py)\<close>

text \<open>
  \<open>get_screen_info()\<close> asks the host for the logical width and height and the pixel scale;
  its answer is a parameter of the model. Without Quartz it is \<open>(1920, 1080, 1.0)\<close>.
\<close>

type_synonym screen_info = "int \<times> int \<times> rat"

definition fallback_screen :: screen_info where
  "fallback_screen = (1920, 1080, 1)"

text \<open>
  \<open>_transform_coords(x_ratio, y_ratio)\<close>. The product \<open>ratio * (dimension - 1)\<close> is a
  binary64 product in the source and exact here; the theorems use it at the ratio 0.5 on a
  1920 by 1080 screen, where the products 959.5 and 539.5 are exact in binary64 too.
\<close>

definition transform_coords :: "screen_info \<Rightarrow> rat \<Rightarrow> rat \<Rightarrow> int \<times> int" where
  "transform_coords info x_ratio y_ratio =
     (case info of (width, height, scale) \<Rightarrow>
        let xr = clamp_ratio x_ratio;
            yr = clamp_ratio y_ratio;
            x = py_round (xr * of_int (width - 1));
            y = py_round (yr * of_int (height - 1))
        in (x, y))"

text \<open>
  \<open>calibrate_click_position(x, y)\<close>. The two arguments \<open>px\<close> and \<open>py\<close> are the outcomes
  of \<open>float(os.getenv("HARVEY_X_OFFSET", "0"))\<close> and of the same call for the Y offset:
  \<open>Inl\<close> when \<open>float\<close> raises, \<open>Inr q\<close> when it returns the finite float \<open>q\<close>. If either
  raises, the \<open>except\<close> branch sets both offsets to 0. The sums \<open>x + offset_x\<close> and
  \<open>y + offset_y\<close> are binary64 additions in the source and exact here: the two agree when
  the offset is an integer and the sum has magnitude at most \<open>2^53\<close>, which the theorems on
  this function assume. An infinite or NaN offset, on which \<open>int\<close> raises, is outside the
  model.
\<close>

definition calibrate_click_position ::
  "(py_error + rat) \<Rightarrow> (py_error + rat) \<Rightarrow> int \<Rightarrow> int \<Rightarrow> int \<times> int" where
  "calibrate_click_position px py x y =
     (let (offset_x, offset_y) =
            (case (px, py) of
               (Inr ox, Inr oy) \<Rightarrow> (ox, oy)
             | _ \<Rightarrow> (0, 0))
      in (py_int (of_int x + offset_x), py_int (of_int y + offset_y)))"

section \<open>Input synthesizer: pointer operations (harvey.py)\<close>

text \<open>
  The pointer operations talk to the host: they read the pointer position
  (\<open>get_current_mouse_position\<close>), move it along a smoothed path (\<open>smooth_move_mouse\<close>),
  sleep, and post button events. The model records these calls, with their arguments, in
  the order the source makes them; each reading of the pointer position is a parameter
  (\<open>cur\<close>, \<open>fin\<close>, \<open>clk\<close>, in the order of the reads). Diagnostics printed on the way are
  left out. \<open>quartz\<close> is the module flag \<open>_QUARTZ_AVAILABLE\<close>, \<open>spotlight\<close> the answer of
  \<open>_is_spotlight_active()\<close>.
\<close>

datatype native_call =
    SmoothMove int int int int
  | Sleep rat
  | MouseDown int int
  | MouseUp int int
  | HotkeyCall string

definition move_mouse :: "bool \<Rightarrow> screen_info \<Rightarrow> int \<times> int \<Rightarrow> rat \<Rightarrow> rat \<Rightarrow> native_call list" where
  "move_mouse quartz info cur x_ratio y_ratio =
     (if \<not> quartz then []
      else case transform_coords info x_ratio y_ratio of (x, y) \<Rightarrow>
        [SmoothMove (fst cur) (snd cur) x y])"

definition ultra_precise_click ::
  "bool \<Rightarrow> bool \<Rightarrow> screen_info \<Rightarrow> (py_error + rat) \<Rightarrow> (py_error + rat) \<Rightarrow>
   int \<times> int \<Rightarrow> int \<times> int \<Rightarrow> int \<times> int \<Rightarrow> rat \<Rightarrow> rat \<Rightarrow> native_call list" where
  "ultra_precise_click quartz spotlight info px py cur fin clk x_ratio y_ratio =
     (if \<not> quartz then []
      else if spotlight then [HotkeyCall ''return'']
      else case transform_coords info x_ratio y_ratio of (x0, y0) \<Rightarrow>
           case calibrate_click_position px py x0 y0 of (x, y) \<Rightarrow>
             [SmoothMove (fst cur) (snd cur) x y, Sleep (15 / 100)]
             @ (if \<bar>fst fin - x\<bar> > 5 \<or> \<bar>snd fin - y\<bar> > 5
                then [SmoothMove (fst fin) (snd fin) x y, Sleep (5 / 100)] else [])
             @ [MouseDown (fst clk) (snd clk), Sleep (5 / 100), MouseUp (fst clk) (snd clk)])"

definition left_click ::
  "bool \<Rightarrow> bool \<Rightarrow> screen_info \<Rightarrow> (py_error + rat) \<Rightarrow> (py_error + rat) \<Rightarrow>
   int \<times> int \<Rightarrow> int \<times> int \<Rightarrow> int \<times> int \<Rightarrow> rat \<Rightarrow> rat \<Rightarrow> native_call list" where
  "left_click = ultra_precise_click"

definition double_click ::
  "bool \<Rightarrow> screen_info \<Rightarrow> (py_error + rat) \<Rightarrow> (py_error + rat) \<Rightarrow>
   int \<times> int \<Rightarrow> int \<times> int \<Rightarrow> rat \<Rightarrow> rat \<Rightarrow> native_call list" where
  "double_click quartz info px py cur fin x_ratio y_ratio =
     (if \<not> quartz then []
      else case transform_coords info x_ratio y_ratio of (x0, y0) \<Rightarrow>
           case calibrate_click_position px py x0 y0 of (x, y) \<Rightarrow>
             [SmoothMove (fst cur) (snd cur) x y, Sleep (2 / 10)]
             @ (if \<bar>fst fin - x\<bar> > 2 \<or> \<bar>snd fin - y\<bar> > 2
                then [SmoothMove (fst fin) (snd fin) x y, Sleep (1 / 10)] else [])
             @ concat (replicate 2
                 [MouseDown x y, Sleep (5 / 100), MouseUp x y, Sleep (1 / 10)]))"

definition hover :: "bool \<Rightarrow> screen_info \<Rightarrow> int \<times> int \<Rightarrow> rat \<Rightarrow> rat \<Rightarrow> native_call list" where
  "hover quartz info cur x_ratio y_ratio =
     (if \<not> quartz then []
      else case transform_coords info x_ratio y_ratio of (x, y) \<Rightarrow>
        [SmoothMove (fst cur) (snd cur) x y, Sleep (1 / 2)])"

section \<open>Input synthesizer: mouse trail (harvey.py)\<close>

text \<open>
  A trail point is the dictionary \<open>{'x', 'y', 'opacity', 'size'}\<close>; the fields carry the
  prefix \<open>tp_\<close> here. \<open>_TRAIL_POINTS\<close> is the module's list, passed in and returned.
\<close>

record trail_point =
  tp_x :: int
  tp_y :: int
  tp_opacity :: rat
  tp_size :: rat

definition MAX_TRAIL_POINTS :: nat where
  "MAX_TRAIL_POINTS = 15"

definition TRAIL_FADE_SPEED :: rat where
  "TRAIL_FADE_SPEED = 8 / 10"

definition fade_point :: "trail_point \<Rightarrow> trail_point" where
  "fade_point p =
     p\<lparr>tp_opacity := tp_opacity p * TRAIL_FADE_SPEED, tp_size := tp_size p * (95 / 100)\<rparr>"

definition new_point :: "int \<Rightarrow> int \<Rightarrow> trail_point" where
  "new_point px py = \<lparr>tp_x = px, tp_y = py, tp_opacity = 1, tp_size = 8\<rparr>"

text \<open>
  \<open>_add_trail_point(x, y)\<close>: append, filter by opacity, keep the last
  \<open>_MAX_TRAIL_POINTS\<close>, then fade every point of the slice \<open>[:-1]\<close>.
\<close>

definition add_trail_point ::
  "bool \<Rightarrow> bool \<Rightarrow> trail_point list \<Rightarrow> int \<Rightarrow> int \<Rightarrow> trail_point list" where
  "add_trail_point trail_enabled quartz pts px py =
     (if \<not> trail_enabled \<or> \<not> quartz then pts
      else
        let ps1 = pts @ [new_point px py];
            ps2 = filter (\<lambda>p. tp_opacity p > 1 / 10) ps1;
            ps3 = (if length ps2 > MAX_TRAIL_POINTS
                   then drop (length ps2 - MAX_TRAIL_POINTS) ps2 else ps2)
        in if ps3 = [] then [] else map fade_point (butlast ps3) @ [last ps3])"

definition clear_mouse_trail :: "trail_point list" where
  "clear_mouse_trail = []"

text \<open>The trail after a run of insertions into the initially empty module list.\<close>

definition trail_after :: "(int \<times> int) list \<Rightarrow> trail_point list" where
  "trail_after moves = foldl (\<lambda>pts (px, py). add_trail_point True True pts px py) [] moves"

text \<open>
  What an insertion keeps of the points already stored: those above the opacity floor,
  and of these the newest \<open>_MAX_TRAIL_POINTS - 1\<close> at most.
\<close>

definition retained_points :: "trail_point list \<Rightarrow> trail_point list" where
  "retained_points pts =
     (let kept = filter (\<lambda>p. tp_opacity p > 1 / 10) pts
      in drop (length kept - (MAX_TRAIL_POINTS - 1)) kept)"

section \<open>Credential pool (api\_manager.py)\<close>

text \<open>
  \<open>os.getenv\<close> is a parameter: the environment as a partial map from names to values.
  The pool's \<open>api_keys\<close> dictionary is an association list in insertion order (the
  comprehension keeps the order of the literal); \<open>usage_tracker\<close> is a map from key
  values to their throttle record. Every reading of \<open>time.time()\<close> within one call is
  the one parameter \<open>now\<close>, in seconds.
\<close>

type_synonym env = "string \<Rightarrow> string option"

record tracker =
  rate_limited :: bool
  retry_after :: rat

record api_key_manager =
  api_keys :: "(string \<times> string) list"
  usage_tracker :: "string \<rightharpoonup> tracker"
  current_key_index :: nat

datatype diagnostic =
    NoApiKeysFound
  | LoadedApiKeys nat "string list"

text \<open>\<open>s.startswith(p)\<close>.\<close>

definition startswith :: "string \<Rightarrow> string \<Rightarrow> bool" where
  "startswith s p = (take (length p) s = p)"

text \<open>The filter \<open>if v\<close> of the comprehension: an unset variable and an empty value are
  both dropped.\<close>

definition truthy_entries :: "(string \<times> string option) list \<Rightarrow> (string \<times> string) list" where
  "truthy_entries raw =
     concat (map (\<lambda>(k, v). case v of None \<Rightarrow> [] | Some s \<Rightarrow> if s = [] then [] else [(k, s)]) raw)"

definition load_api_keys :: "env \<Rightarrow> (string \<times> string) list \<times> diagnostic list" where
  "load_api_keys getenv =
     (let keys = truthy_entries
            [(''voice'', getenv ''GOOGLE_API_KEY_VOICE''),
             (''flash'', getenv ''GOOGLE_API_KEY_FLASH''),
             (''completion1'', getenv ''GOOGLE_API_KEY_1''),
             (''completion2'', getenv ''GOOGLE_API_KEY_2''),
             (''completion3'', getenv ''GOOGLE_API_KEY_3'')]
      in if keys = [] then (keys, [NoApiKeysFound])
         else (keys, [LoadedApiKeys (length keys) (map fst keys)]))"

text \<open>
  \<open>APIKeyManager.__init__\<close>, run once by the module-level \<open>api_manager = APIKeyManager()\<close>.
  Neither the constructor nor \<open>load_api_keys\<close> has a \<open>raise\<close>: the outcome is \<open>Inr\<close> on
  every path, with the diagnostics printed and the constructed object.
\<close>

definition APIKeyManager_init :: "env \<Rightarrow> py_error + (diagnostic list \<times> api_key_manager)" where
  "APIKeyManager_init getenv =
     (case load_api_keys getenv of (keys, printed) \<Rightarrow>
        Inr (printed, \<lparr>api_keys = keys, usage_tracker = Map.empty, current_key_index = 0\<rparr>))"

definition first_value :: "(string \<times> string) list \<Rightarrow> string option" where
  "first_value keys = (case keys of [] \<Rightarrow> None | (k, v) # rest \<Rightarrow> Some v)"

definition completion_keys :: "api_key_manager \<Rightarrow> string list" where
  "completion_keys m = filter (\<lambda>k. startswith k ''completion'') (map fst (api_keys m))"

definition get_key_for_service ::
  "api_key_manager \<Rightarrow> string \<Rightarrow> string option \<times> api_key_manager" where
  "get_key_for_service m service_type =
     (if service_type = ''voice'' \<and> ''voice'' \<in> set (map fst (api_keys m))
      then (map_of (api_keys m) ''voice'', m)
      else if service_type = ''flash'' \<and> ''flash'' \<in> set (map fst (api_keys m))
      then (map_of (api_keys m) ''flash'', m)
      else if service_type = ''completion'' \<and> completion_keys m \<noteq> []
      then (map_of (api_keys m)
              (completion_keys m ! (current_key_index m mod length (completion_keys m))),
            m\<lparr>current_key_index := current_key_index m + 1\<rparr>)
      else (first_value (api_keys m), m))"

definition mark_rate_limited :: "api_key_manager \<Rightarrow> rat \<Rightarrow> string \<Rightarrow> rat \<Rightarrow> api_key_manager" where
  "mark_rate_limited m now api_key retry =
     m\<lparr>usage_tracker := (usage_tracker m)
          (api_key \<mapsto> \<lparr>rate_limited = True, retry_after = now + retry\<rparr>)\<rparr>"

definition is_key_available :: "api_key_manager \<Rightarrow> rat \<Rightarrow> string \<Rightarrow> bool" where
  "is_key_available m now api_key =
     (case usage_tracker m api_key of
        None \<Rightarrow> True
      | Some t \<Rightarrow> if rate_limited t \<and> now < retry_after t then False else True)"

definition get_available_key ::
  "api_key_manager \<Rightarrow> rat \<Rightarrow> string \<Rightarrow> string option \<times> api_key_manager" where
  "get_available_key m now service_type =
     (case get_key_for_service m service_type of (preferred_key, m') \<Rightarrow>
        (case preferred_key of
           Some k \<Rightarrow>
             if k \<noteq> [] \<and> is_key_available m' now k then (Some k, m')
             else (find (is_key_available m' now) (map snd (api_keys m')), m')
         | None \<Rightarrow> (find (is_key_available m' now) (map snd (api_keys m')), m')))"

text \<open>Consecutive \<open>get_available_key\<close> calls for one service, one per clock reading.\<close>

fun acquire_each ::
  "api_key_manager \<Rightarrow> string \<Rightarrow> rat list \<Rightarrow> string option list \<times> api_key_manager" where
  "acquire_each m service_type [] = ([], m)"
| "acquire_each m service_type (t # ts) =
     (case get_available_key m t service_type of (r, m') \<Rightarrow>
        case acquire_each m' service_type ts of (rs, m'') \<Rightarrow> (r # rs, m''))"

text \<open>The values of the rotation group, in the order of \<open>completion_keys\<close>.\<close>

definition rotation_values :: "api_key_manager \<Rightarrow> string list" where
  "rotation_values m =
     map snd (filter (\<lambda>(k, v). startswith k ''completion'') (api_keys m))"

text \<open>
  A pool with one voice key and two completion keys, the first completion key marked
  rate limited at time 0 for the default 60 seconds; and an environment that yields the
  same key table.
\<close>

definition throttled_pool :: api_key_manager where
  "throttled_pool =
     mark_rate_limited
       \<lparr>api_keys = [(''voice'', ''V''), (''completion1'', ''A''), (''completion2'', ''B'')],
        usage_tracker = Map.empty, current_key_index = 0\<rparr>
       0 ''A'' 60"

definition env0 :: env where
  "env0 = (\<lambda>n. if n = ''GOOGLE_API_KEY_VOICE'' then Some ''V''
                else if n = ''GOOGLE_API_KEY_1'' then Some ''A''
                else if n = ''GOOGLE_API_KEY_2'' then Some ''B'' else None)"

section \<open>Strings as Python handles them\<close>

text \<open>
  \<open>str.isspace\<close> on the code points below 256: tab, line feed, vertical tab, form feed,
  carriage return, the four separators 0x1C to 0x1F, the space, the next-line control
  0x85 and the no-break space 0xA0. \<open>str.strip()\<close> removes such characters at both ends,
  and \<open>\s\<close> in a regular expression on \<open>str\<close> matches them. Below 256 the decimal
  digits of \<open>\d\<close> are the ASCII digits, and \<open>str.lower()\<close> changes the letters A to Z
  and the capital letters 0xC0 to 0xDE (the multiplication sign 0xD7 is no letter).
\<close>

definition is_ascii :: "string \<Rightarrow> bool" where
  "is_ascii s = list_all (\<lambda>c. of_char c < (128 :: nat)) s"

definition is_space :: "char \<Rightarrow> bool" where
  "is_space c = (c \<in> set [CHR 0x09, CHR 0x0A, CHR 0x0B, CHR 0x0C, CHR 0x0D,
                           CHR 0x1C, CHR 0x1D, CHR 0x1E, CHR 0x1F, CHR 0x20,
                           CHR 0x85, CHR 0xA0])"

definition is_digit :: "char \<Rightarrow> bool" where
  "is_digit c = (c \<in> set ''0123456789'')"

definition strip :: "string \<Rightarrow> string" where
  "strip s = rev (dropWhile is_space (rev (dropWhile is_space s)))"

text \<open>\<open>s.split('\n')\<close>: always at least one piece.\<close>

fun split_lines :: "string \<Rightarrow> string list" where
  "split_lines [] = [[]]"
| "split_lines (c # cs) =
     (if c = CHR 0x0A then [] # split_lines cs
      else case split_lines cs of
             [] \<Rightarrow> [[c]]
           | l # ls \<Rightarrow> (c # l) # ls)"

text \<open>\<open>p in s\<close> for strings: \<open>p\<close> occurs as a contiguous substring of \<open>s\<close>.\<close>

fun py_in :: "string \<Rightarrow> string \<Rightarrow> bool" where
  "py_in p [] = (p = [])"
| "py_in p (c # cs) = (if startswith (c # cs) p then True else py_in p cs)"

definition lower_char :: "char \<Rightarrow> char" where
  "lower_char c =
     (let n = (of_char c :: nat)
      in if (65 \<le> n \<and> n \<le> 90) \<or> (192 \<le> n \<and> n \<le> 222 \<and> n \<noteq> 215)
         then char_of (n + 32) else c)"

definition lower :: "string \<Rightarrow> string" where
  "lower s = map lower_char s"

text \<open>The value of a string of ASCII digits, as \<open>int\<close> and \<open>float\<close> read it.\<close>

definition digit_value :: "char \<Rightarrow> nat" where
  "digit_value c = of_char c - 48"

definition digits_value :: "string \<Rightarrow> nat" where
  "digits_value ds = foldl (\<lambda>acc c. 10 * acc + digit_value c) 0 ds"

text \<open>
  \<open>float(s)\<close> on the strings the two regular expressions of harvey.py can hand to it:
  ASCII digits and dots only. Such a string is a float literal when it has at most one dot
  and at least one digit; otherwise \<open>float\<close> raises \<open>ValueError\<close>.
\<close>

definition py_float :: "string \<Rightarrow> py_error + rat" where
  "py_float s =
     (let ip = takeWhile is_digit s; rest = dropWhile is_digit s
      in case rest of
           [] \<Rightarrow> if ip = [] then Inl ValueError else Inr (of_nat (digits_value ip))
         | c # fp \<Rightarrow>
             if c = CHR ''.'' \<and> list_all is_digit fp \<and> (ip \<noteq> [] \<or> fp \<noteq> [])
             then Inr (of_nat (digits_value ip) + of_nat (digits_value fp) / 10 ^ length fp)
             else Inl ValueError)"

section \<open>Action directive parser (Harvey.think, success path)\<close>

definition commands :: "string list" where
  "commands = [''left_click'', ''type_text'', ''bulk_type'', ''hotkey'', ''done'', ''wait'',
               ''scroll'']"

text \<open>
  The \<open>for line in lines\<close> loop of \<open>think\<close>, with its two \<open>break\<close>s. The state is
  \<open>see_line\<close>; \<open>action\<close> is empty as long as the loop runs, so \<open>not action\<close> in the last
  \<open>elif\<close> is always true there. The result is \<open>(see_line, action)\<close> after the loop.
\<close>

fun parse_lines :: "string list \<Rightarrow> string \<Rightarrow> string \<times> string" where
  "parse_lines [] see_line = (see_line, [])"
| "parse_lines (raw # rest) see_line =
     (let line = strip raw
      in if startswith line ''See:'' then parse_lines rest (strip (drop 4 line))
         else if startswith line ''Action:'' then (see_line, strip (drop 7 line))
         else if startswith line ''**See:**'' then parse_lines rest (strip (drop 8 line))
         else if startswith line ''**Action:**'' then (see_line, strip (drop 11 line))
         else if see_line = [] \<and> line \<noteq> [] \<and> \<not> startswith line ''**''
                 \<and> list_ex (\<lambda>cmd. py_in cmd line) commands
         then (see_line, line)
         else parse_lines rest see_line)"

text \<open>
  From \<open>response_text = response.text.strip()\<close> to the \<open>return\<close> of the \<open>try\<close> block:
  the pair of the new \<open>self.last_see\<close> and the returned action text.
\<close>

definition parse_reply :: "string \<Rightarrow> string \<times> string" where
  "parse_reply text =
     (case parse_lines (split_lines (strip text)) [] of (see_line, action) \<Rightarrow>
        let action' = (if action \<noteq> [] then strip (filter (\<lambda>c. c \<noteq> CHR 0x60) action)
                       else action)
        in (see_line, if action' \<noteq> [] then action' else ''wait(1000)''))"

section \<open>Harvey.think, failure path\<close>

text \<open>
  The pattern \<open>Please retry in (\d+\.?\d*)s\<close>. \<open>retry_at\<close> matches what follows the
  literal prefix: the digit runs are maximal, because neither a dot nor \<open>s\<close> is a digit, so
  backtracking finds nothing more. \<open>retry_search\<close> is \<open>re.search\<close>: the leftmost start.
\<close>

definition retry_at :: "string \<Rightarrow> string option" where
  "retry_at s =
     (let d1 = takeWhile is_digit s; r1 = dropWhile is_digit s
      in if d1 = [] then None
         else case r1 of
                [] \<Rightarrow> None
              | c # r2 \<Rightarrow>
                  if c = CHR ''s'' then Some d1
                  else if c = CHR ''.'' then
                    (let d2 = takeWhile is_digit r2; r3 = dropWhile is_digit r2
                     in case r3 of
                          [] \<Rightarrow> None
                        | c' # r4 \<Rightarrow> if c' = CHR ''s'' then Some (d1 @ ''.'' @ d2) else None)
                  else None)"

fun retry_search :: "string \<Rightarrow> string option" where
  "retry_search [] = None"
| "retry_search (c # cs) =
     (if startswith (c # cs) ''Please retry in ''
      then (case retry_at (drop 16 (c # cs)) of
              Some g \<Rightarrow> Some g
            | None \<Rightarrow> retry_search cs)
      else retry_search cs)"

text \<open>
  \<open>think(task, screenshot_data)\<close>. The model call is a parameter: \<open>Inr text\<close> when
  \<open>generate_content\<close> answered with \<open>response.text = text\<close>, \<open>Inl error_str\<close> when anything
  in the \<open>try\<close> block raised, with \<open>error_str = str(e)\<close>. The result is the returned action
  text, the \<open>time.sleep\<close> durations (seconds) spent inside the call, and \<open>self.last_see\<close>
  afterwards. \<open>float\<close> cannot raise on the group of the retry pattern.
\<close>

definition think :: "string \<Rightarrow> string + string \<Rightarrow> string \<Rightarrow> string \<times> rat list \<times> string" where
  \<open>think task outcome last_see =
     (case outcome of
        Inr text \<Rightarrow> (case parse_reply text of (see_line, action) \<Rightarrow> (action, [], see_line))
      | Inl error_str \<Rightarrow>
          if py_in ''429'' error_str \<or> py_in ''RESOURCE_EXHAUSTED'' error_str then
            (let slept =
                   (case retry_search error_str of
                      Some g \<Rightarrow> (case py_float g of Inr delay \<Rightarrow> [delay + 1] | Inl e \<Rightarrow> [])
                    | None \<Rightarrow> [10])
             in if (py_in ''safari'' (lower task) \<or> py_in ''browser'' (lower task))
                   \<and> py_in ''search'' (lower task)
                then (''hotkey("cmd+t")'', slept, last_see)
                else (''done()'', slept, last_see))
          else (''done()'', [], last_see))\<close>

section \<open>Argument extraction and Harvey.execute\<close>

text \<open>
  \<open>_extract_coords\<close> searches \<open>\(([0-9.]+),\s*([0-9.]+)\)\<close>. \<open>coords_at\<close> matches the
  pattern at the head of a string and returns the two groups; every run is maximal since
  the character that must follow it is outside the run's class.
\<close>

definition is_coord_char :: "char \<Rightarrow> bool" where
  "is_coord_char c = (is_digit c \<or> c = CHR ''.'')"

definition coords_at :: "string \<Rightarrow> (string \<times> string) option" where
  "coords_at s =
     (case s of
        [] \<Rightarrow> None
      | c # r \<Rightarrow>
          if c \<noteq> CHR ''('' then None
          else let g1 = takeWhile is_coord_char r; r1 = dropWhile is_coord_char r
               in if g1 = [] then None
                  else case r1 of
                         [] \<Rightarrow> None
                       | c1 # r2 \<Rightarrow>
                           if c1 \<noteq> CHR '','' then None
                           else let r3 = dropWhile is_space r2;
                                    g2 = takeWhile is_coord_char r3;
                                    r4 = dropWhile is_coord_char r3
                                in if g2 = [] then None
                                   else case r4 of
                                          [] \<Rightarrow> None
                                        | c2 # r5 \<Rightarrow>
                                            if c2 = CHR '')'' then Some (g1, g2) else None)"

fun coords_search :: "string \<Rightarrow> (string \<times> string) option" where
  "coords_search [] = None"
| "coords_search (c # cs) =
     (case coords_at (c # cs) of
        Some g \<Rightarrow> Some g
      | None \<Rightarrow> coords_search cs)"

definition extract_coords :: "string \<Rightarrow> py_error + (rat \<times> rat) option" where
  "extract_coords text =
     (case coords_search text of
        None \<Rightarrow> Inr None
      | Some (g1, g2) \<Rightarrow>
          (case py_float g1 of
             Inl e \<Rightarrow> Inl e
           | Inr ratio_x \<Rightarrow>
               (case py_float g2 of
                  Inl e \<Rightarrow> Inl e
                | Inr ratio_y \<Rightarrow> Inr (Some (clamp_ratio ratio_x, clamp_ratio ratio_y)))))"

text \<open>\<open>_extract_text\<close> searches \<open>"([^"]*)"\<close>: the first double quote that has a closing
  one after it, and the text between the two.\<close>

definition extract_text :: "string \<Rightarrow> string option" where
  "extract_text text =
     (case dropWhile (\<lambda>c. c \<noteq> CHR 0x22) text of
        [] \<Rightarrow> None
      | q # rest \<Rightarrow>
          if CHR 0x22 \<in> set rest then Some (takeWhile (\<lambda>c. c \<noteq> CHR 0x22) rest) else None)"

text \<open>\<open>_extract_number\<close> searches \<open>\((\d+)\)\<close>.\<close>

definition number_at :: "string \<Rightarrow> nat option" where
  "number_at s =
     (case s of
        [] \<Rightarrow> None
      | c # r \<Rightarrow>
          if c \<noteq> CHR ''('' then None
          else let ds = takeWhile is_digit r
               in if ds = [] then None
                  else case dropWhile is_digit r of
                         [] \<Rightarrow> None
                       | c1 # r1 \<Rightarrow> if c1 = CHR '')'' then Some (digits_value ds) else None)"

fun extract_number :: "string \<Rightarrow> nat option" where
  "extract_number [] = None"
| "extract_number (c # cs) =
     (case number_at (c # cs) of
        Some n \<Rightarrow> Some n
      | None \<Rightarrow> extract_number cs)"

text \<open>
  \<open>execute(action_text)\<close> returns the list of calls it makes into the input synthesizer
  (and \<open>time.sleep\<close>), and its boolean result. An exception raised while the arguments are
  worked out is caught by the \<open>except\<close> of \<open>execute\<close>, which prints "Action error"; the
  call is then not made and the result is \<open>False\<close>. This happens for a \<open>ValueError\<close> from
  \<open>float\<close> inside \<open>_extract_coords\<close>, and in the \<open>wait\<close> branch when the number is so
  large that \<open>ms / 1000\<close> has no float (the quotient rounds to \<open>2^1024\<close> or more, that
  is, it reaches \<open>float_overflow\<close>), or
  that \<open>int\<close> or the diagnostic refuses its digits. What a callee does with its
  arguments, such as \<open>time.sleep\<close> refusing a duration, belongs to the host.
\<close>

definition float_overflow :: rat where
  "float_overflow = 2 ^ 1024 - 2 ^ 970"

datatype synth_call =
    CallMoveMouse rat rat
  | CallLeftClick rat rat
  | CallDoubleClick rat rat
  | CallHover rat rat
  | CallBulkType string
  | CallTypeText string
  | CallScroll string
  | CallHotkey string
  | CallSleep rat
  | ActionError

definition with_coords :: "(rat \<Rightarrow> rat \<Rightarrow> synth_call) \<Rightarrow> string \<Rightarrow> synth_call list \<times> bool" where
  "with_coords f action_text =
     (case extract_coords action_text of
        Inl e \<Rightarrow> ([ActionError], False)
      | Inr None \<Rightarrow> ([], False)
      | Inr (Some (ratio_x, ratio_y)) \<Rightarrow> ([f ratio_x ratio_y], False))"

definition with_text :: "(string \<Rightarrow> synth_call) \<Rightarrow> string \<Rightarrow> synth_call list \<times> bool" where
  "with_text f action_text =
     (case extract_text action_text of
        None \<Rightarrow> ([], False)
      | Some t \<Rightarrow> if t = [] then ([], False) else ([f t], False))"

definition execute :: "string \<Rightarrow> synth_call list \<times> bool" where
  "execute action_text =
     (if startswith action_text ''move_mouse'' then with_coords CallMoveMouse action_text
      else if startswith action_text ''left_click'' then with_coords CallLeftClick action_text
      else if startswith action_text ''double_click'' then with_coords CallDoubleClick action_text
      else if startswith action_text ''hover'' then with_coords CallHover action_text
      else if startswith action_text ''bulk_type'' then with_text CallBulkType action_text
      else if startswith action_text ''type_text'' then with_text CallTypeText action_text
      else if startswith action_text ''scroll'' then with_text CallScroll action_text
      else if startswith action_text ''hotkey'' then with_text CallHotkey action_text
      else if startswith action_text ''wait'' then
        (case extract_number action_text of
           None \<Rightarrow> ([], False)
         | Some ms \<Rightarrow>
             if ms = 0 then ([], False)
             else if float_overflow \<le> of_nat ms / 1000 then ([ActionError], False)
             else ([CallSleep (of_nat ms / 1000)], False))
      else if startswith action_text ''focus_address_bar'' then
        ([CallHotkey ''cmd+l'', CallSleep (3 / 10)], False)
      else if startswith action_text ''done'' then ([], True)
      else ([], False))"

section \<open>Control loop (Harvey.run)\<close>

text \<open>
  The collaborators are parameters. \<open>capture step\<close> is what \<open>capture_to_bytes()\<close> returns
  in that iteration (\<open>None\<close> and the empty string are both falsy), \<open>model step\<close> the
  outcome of the model call there. \<open>dump shot\<close> is what the debug dump of the first
  iteration does with a truthy screenshot: it opens \<open>harvey_debug.jpg\<close> and writes
  \<open>base64.b64decode(screenshot_data)\<close> outside any \<open>try\<close>, so an exception there
  (\<open>Some e\<close>) leaves \<open>run\<close> at once, before the capture check and the model call and
  without the final diagnostic; \<open>None\<close> when the dump completes. The image and screen
  diagnostics that follow it are inside \<open>try\<close> blocks and cannot leave the loop, and the
  spoken rationale catches its own exceptions; both are left out.

  The result of \<open>run\<close> is what the caller receives and the trace. \<open>run\<close> has no
  \<open>return\<close> statement, so the caller receives \<open>None\<close> (\<open>Inr ()\<close>) on every path that
  returns, and the exception (\<open>Inl e\<close>) when the dump raised. The trace lists, in order,
  what an iteration does: the sleeps inside \<open>think\<close>, the action text \<open>think\<close> returned,
  the calls of \<open>execute\<close>, the inter-step sleep, and the diagnostics that tell the exits
  apart.
\<close>

datatype run_event =
    CaptureFailed
  | Slept rat
  | Thought string
  | Called synth_call
  | TaskComplete
  | Finished

definition truthy :: "string option \<Rightarrow> bool" where
  "truthy data = (case data of None \<Rightarrow> False | Some shot \<Rightarrow> shot \<noteq> [])"

definition debug_dump :: "(string \<Rightarrow> py_error option) \<Rightarrow> nat \<Rightarrow> string option \<Rightarrow> py_error option" where
  "debug_dump dump step data =
     (case data of
        None \<Rightarrow> None
      | Some shot \<Rightarrow> if step = 0 \<and> shot \<noteq> [] then dump shot else None)"

fun run_steps ::
  "string \<Rightarrow> (string \<Rightarrow> py_error option) \<Rightarrow> (nat \<Rightarrow> string option)
   \<Rightarrow> (nat \<Rightarrow> string + string) \<Rightarrow> string \<Rightarrow> nat list
   \<Rightarrow> (py_error + unit) \<times> run_event list" where
  "run_steps task dump capture model last_see [] = (Inr (), [Finished])"
| "run_steps task dump capture model last_see (step # steps) =
     (case debug_dump dump step (capture step) of
        Some e \<Rightarrow> (Inl e, [])
      | None \<Rightarrow>
          if \<not> truthy (capture step) then (Inr (), [CaptureFailed, Finished])
          else case think task (model step) last_see of (action, slept, last_see') \<Rightarrow>
               case execute action of (calls, done) \<Rightarrow>
                 if done
                 then (Inr (), map Slept slept @ [Thought action] @ map Called calls
                               @ [TaskComplete, Finished])
                 else case run_steps task dump capture model last_see' steps of
                        (result, later) \<Rightarrow>
                          (result, map Slept slept @ [Thought action] @ map Called calls
                                   @ Slept 1 # later))"

definition run ::
  "string \<Rightarrow> (string \<Rightarrow> py_error option) \<Rightarrow> (nat \<Rightarrow> string option)
   \<Rightarrow> (nat \<Rightarrow> string + string) \<Rightarrow> (py_error + unit) \<times> run_event list" where
  "run task dump capture model = run_steps task dump capture model [] [0..<20]"

text \<open>The number of loop iterations that reached the model call.\<close>

definition iterations :: "run_event list \<Rightarrow> nat" where
  "iterations trace = length (filter (\<lambda>e. case e of Thought a \<Rightarrow> True | _ \<Rightarrow> False) trace)"

section \<open>Vocabulary of the parser claims\<close>

text \<open>
  A labeled action line, and a line that mentions one of the command names.
\<close>

definition is_action_label :: "string \<Rightarrow> bool" where
  "is_action_label line = (startswith line ''Action:'' \<or> startswith line ''**Action:**'')"

definition mentions_command :: "string \<Rightarrow> bool" where
  "mentions_command line = list_ex (\<lambda>cmd. py_in cmd line) commands"

text \<open>
  The observation text recorded after a line, when the line is no labeled action line;
  the observation text in force before each line of a reply; and the lines the fallback
  can take: not an observation line, not empty, not starting with two asterisks, and
  mentioning a command name.
\<close>

definition see_update :: "string \<Rightarrow> string \<Rightarrow> string" where
  "see_update see_line line =
     (if startswith line ''See:'' then strip (drop 4 line)
      else if startswith line ''**See:**'' then strip (drop 8 line)
      else see_line)"

fun see_states :: "string \<Rightarrow> string list \<Rightarrow> string list" where
  "see_states see_line [] = []"
| "see_states see_line (raw # rest) = see_line # see_states (see_update see_line (strip raw)) rest"

definition scannable :: "string \<Rightarrow> bool" where
  "scannable line =
     (\<not> startswith line ''See:'' \<and> line \<noteq> [] \<and> \<not> startswith line ''**''
      \<and> mentions_command line)"

definition first_fallback :: "string \<Rightarrow> string list \<Rightarrow> string" where
  "first_fallback see_line raws =
     (case filter (\<lambda>(s, line). s = [] \<and> scannable line)
             (zip (see_states see_line raws) (map strip raws)) of
        [] \<Rightarrow> []
      | (s, line) # others \<Rightarrow> line)"

text \<open>
  An unparsable reply: none of its lines (stripped, as the loop sees them) is a labeled
  action line, and the fallback takes none of them, be it that no line mentions a
  command or that the lines that do are not scanned.
\<close>

definition unparsable :: "string \<Rightarrow> bool" where
  "unparsable reply =
     ((\<forall>raw \<in> set (split_lines (strip reply)). \<not> is_action_label (strip raw))
      \<and> first_fallback [] (split_lines (strip reply)) = [])"

section \<open>Properties: coordinates\<close>

lemma py_int_of_int: "py_int (of_int n) = n"
  by (simp add: py_int_def)

lemma py_round_half_959: "py_round (1 / 2 * 1919) = 960"
  by code_simp

lemma py_round_half_539: "py_round (1 / 2 * 1079) = 540"
  by code_simp

lemma transform_center: "transform_coords (1920, 1080, s) (1 / 2) (1 / 2) = (960, 540)"
  using py_round_half_959 py_round_half_539
  by (simp add: transform_coords_def clamp_ratio_def Let_def)

text \<open>
  C1 as stated fails already with the zero offset: the centre ratio \<open>(0.5, 0.5)\<close> on a
  1920 by 1080 screen is scaled to \<open>(959.5, 539.5)\<close>, and \<open>round\<close> takes both halves up to
  the even neighbours 960 and 540, not down to 959 and 539.
\<close>

theorem C1_center_counterexample:
  "(case transform_coords (1920, 1080, 1) (1 / 2) (1 / 2) of
      (x, y) \<Rightarrow> calibrate_click_position (Inr 0) (Inr 0) x y) \<noteq> (959 + 0, 539 + 0)"
  by (simp add: transform_center calibrate_click_position_def py_int_def)

text \<open>
  C1 (amended): for every integer calibration offset \<open>(dx, dy)\<close> with \<open>|dx|\<close> and \<open>|dy|\<close>
  at most \<open>2^52\<close> (so that the offsets and the two sums are exact as binary64 floats),
  converting the ratio pair \<open>(0.5, 0.5)\<close> on a 1920 by 1080 logical screen and then
  calibrating yields the point \<open>(960 + dx, 540 + dy)\<close>.
\<close>

theorem C1_center_calibrated:
  assumes "\<bar>dx\<bar> \<le> 2 ^ 52" and "\<bar>dy\<bar> \<le> 2 ^ 52"
  shows "(case transform_coords (1920, 1080, s) (1 / 2) (1 / 2) of
      (x, y) \<Rightarrow> calibrate_click_position (Inr (of_int dx)) (Inr (of_int dy)) x y)
   = (960 + dx, 540 + dy)"
proof -
  have "py_int (of_int 960 + of_int dx) = 960 + dx"
    using py_int_of_int [of "960 + dx"] by simp
  moreover have "py_int (of_int 540 + of_int dy) = 540 + dy"
    using py_int_of_int [of "540 + dy"] by simp
  ultimately show ?thesis
    by (simp add: transform_center calibrate_click_position_def)
qed

theorem C1_center_calibrated_witness:
  "(case transform_coords (1920, 1080, 1) (1 / 2) (1 / 2) of
      (x, y) \<Rightarrow> calibrate_click_position (Inr (of_int 3)) (Inr (of_int (- 4))) x y)
   = (963, 536)"
proof -
  have "\<bar>3 :: int\<bar> \<le> 2 ^ 52" and "\<bar>- 4 :: int\<bar> \<le> 2 ^ 52"
    by simp_all
  from C1_center_calibrated [OF this, of 1] show ?thesis
    by simp
qed

section \<open>Properties: pointer operations\<close>

lemma calibrate_int:
  "calibrate_click_position (Inr (of_int dx)) (Inr (of_int dy)) x y = (x + dx, y + dy)"
proof -
  have "py_int (of_int x + of_int dx) = x + dx"
    using py_int_of_int [of "x + dx"] by simp
  moreover have "py_int (of_int y + of_int dy) = y + dy"
    using py_int_of_int [of "y + dy"] by simp
  ultimately show ?thesis
    by (simp add: calibrate_click_position_def)
qed

text \<open>
  C4 at a concrete input: centre ratio on a 1920 by 1080 screen with the calibration
  offset \<open>(10, 20)\<close> configured. \<open>double_click\<close> and \<open>left_click\<close> aim at the calibrated
  point \<open>(970, 560)\<close>; \<open>hover\<close> and \<open>move_mouse\<close> never call
  \<open>calibrate_click_position\<close> (they do not even read the offset) and aim at the raw
  point \<open>(960, 540)\<close>.
\<close>

theorem C4_hover_ignores_offset:
  "hover True (1920, 1080, 1) (100, 100) (1 / 2) (1 / 2)
     = [SmoothMove 100 100 960 540, Sleep (1 / 2)]
   \<and> move_mouse True (1920, 1080, 1) (100, 100) (1 / 2) (1 / 2)
     = [SmoothMove 100 100 960 540]
   \<and> double_click True (1920, 1080, 1) (Inr 10) (Inr 20) (100, 100) (970, 560) (1 / 2) (1 / 2)
     = [SmoothMove 100 100 970 560, Sleep (2 / 10),
        MouseDown 970 560, Sleep (5 / 100), MouseUp 970 560, Sleep (1 / 10),
        MouseDown 970 560, Sleep (5 / 100), MouseUp 970 560, Sleep (1 / 10)]
   \<and> left_click True False (1920, 1080, 1) (Inr 10) (Inr 20) (100, 100) (970, 560) (970, 560)
        (1 / 2) (1 / 2)
     = [SmoothMove 100 100 970 560, Sleep (15 / 100),
        MouseDown 970 560, Sleep (5 / 100), MouseUp 970 560]"
proof -
  have c: "calibrate_click_position (Inr 10) (Inr 20) 960 540 = (970, 560)"
    using calibrate_int [of 10 20 960 540] by simp
  show ?thesis
    by (simp add: hover_def move_mouse_def double_click_def left_click_def
        ultra_precise_click_def transform_center c numeral_2_eq_2)
qed


section \<open>Properties: mouse trail\<close>

lemma add_trail_point_eq:
  "add_trail_point True True pts px py = map fade_point (retained_points pts) @ [new_point px py]"
proof -
  define k where "k = filter (\<lambda>p. tp_opacity p > 1 / 10) pts"
  define n where "n = new_point px py"
  have f: "filter (\<lambda>p. tp_opacity p > 1 / 10) (pts @ [n]) = k @ [n]"
    by (simp add: n_def new_point_def k_def)
  have r: "retained_points pts = drop (length k - 14) k"
    unfolding retained_points_def k_def MAX_TRAIL_POINTS_def Let_def by simp
  have a: "add_trail_point True True pts px py =
        (let ps3 = (if length (k @ [n]) > 15 then drop (length (k @ [n]) - 15) (k @ [n]) else k @ [n])
         in if ps3 = [] then [] else map fade_point (butlast ps3) @ [last ps3])"
    unfolding add_trail_point_def Let_def MAX_TRAIL_POINTS_def n_def [symmetric] f by simp
  have "(if length (k @ [n]) > 15 then drop (length (k @ [n]) - 15) (k @ [n]) else k @ [n])
        = drop (length k - 14) k @ [n]"
    by simp
  then show ?thesis
    unfolding a r n_def [symmetric] by (simp add: butlast_append)
qed

lemma length_retained: "length (retained_points pts) \<le> 14"
  by (simp add: retained_points_def MAX_TRAIL_POINTS_def Let_def)

lemma set_retained: "set (retained_points pts) \<subseteq> set pts"
  unfolding retained_points_def Let_def
  by (meson filter_is_subset set_drop_subset subset_trans)

lemma trail_after_snoc:
  "trail_after (moves @ [(px, py)]) = add_trail_point True True (trail_after moves) px py"
  by (simp add: trail_after_def)

lemma opacity_le_1: "p \<in> set (trail_after moves) \<Longrightarrow> tp_opacity p \<le> 1"
proof (induction moves arbitrary: p rule: rev_induct)
  case Nil
  then show ?case by (simp add: trail_after_def)
next
  case (snoc m moves)
  obtain px py where m: "m = (px, py)" by (cases m)
  from snoc.prems have "p \<in> fade_point ` set (retained_points (trail_after moves)) \<or> p = new_point px py"
    by (auto simp: m trail_after_snoc add_trail_point_eq)
  then show ?case
  proof
    assume "p \<in> fade_point ` set (retained_points (trail_after moves))"
    then obtain q where q: "q \<in> set (trail_after moves)" "p = fade_point q"
      using set_retained by blast
    from snoc.IH [OF q(1)] have "tp_opacity q * (8 / 10) \<le> 1 * 1"
      by (intro mult_mono) auto
    then show ?thesis by (simp add: q fade_point_def TRAIL_FADE_SPEED_def)
  next
    assume "p = new_point px py"
    then show ?thesis by (simp add: new_point_def)
  qed
qed


text \<open>
  C9: after every insertion into a trail grown from the empty list, the stored sequence
  holds at most \<open>_MAX_TRAIL_POINTS\<close> (15) points, the opacity of the oldest retained
  point is at most that of the newest, and the new sequence is the retained old points
  (those whose opacity was above the floor 0.1, the newest 14 of them), each with its
  opacity multiplied by the fixed factor \<open>_TRAIL_FADE_SPEED\<close>, followed by the new point.
\<close>

theorem C9_trail_bounded:
  "length (add_trail_point True True (trail_after moves) px py) \<le> MAX_TRAIL_POINTS
   \<and> tp_opacity (hd (add_trail_point True True (trail_after moves) px py))
       \<le> tp_opacity (last (add_trail_point True True (trail_after moves) px py))
   \<and> add_trail_point True True (trail_after moves) px py
       = map fade_point (retained_points (trail_after moves)) @ [new_point px py]
   \<and> tp_opacity (fade_point p) = tp_opacity p * TRAIL_FADE_SPEED"
proof -
  let ?old = "trail_after moves"
  let ?new = "add_trail_point True True ?old px py"
  have eq: "?new = map fade_point (retained_points ?old) @ [new_point px py]"
    by (rule add_trail_point_eq)
  have len: "length ?new \<le> MAX_TRAIL_POINTS"
    using length_retained [of ?old] by (simp add: eq MAX_TRAIL_POINTS_def)
  have "?new = trail_after (moves @ [(px, py)])"
    by (simp add: trail_after_snoc)
  moreover have "?new \<noteq> []"
    by (simp add: eq)
  then have "hd ?new \<in> set ?new"
    by (rule hd_in_set)
  ultimately have "tp_opacity (hd ?new) \<le> 1"
    using opacity_le_1 by metis
  moreover have "tp_opacity (last ?new) = 1"
    by (simp add: eq new_point_def)
  ultimately have ord: "tp_opacity (hd ?new) \<le> tp_opacity (last ?new)"
    by simp
  have "tp_opacity (fade_point p) = tp_opacity p * TRAIL_FADE_SPEED"
    by (simp add: fade_point_def)
  with len ord eq show ?thesis by blast
qed

theorem C9_trail_bounded_witness:
  "length (add_trail_point True True (trail_after [(1, 2), (3, 4)]) 5 6) = 3
   \<and> map tp_opacity (add_trail_point True True (trail_after [(1, 2), (3, 4)]) 5 6) = [16 / 25, 4 / 5, 1]"
  using C9_trail_bounded [of "[(1, 2), (3, 4)]" 5 6 "new_point 1 2"]
  by (simp add: trail_after_def add_trail_point_def new_point_def fade_point_def
      retained_points_def TRAIL_FADE_SPEED_def MAX_TRAIL_POINTS_def)


section \<open>Properties: credential pool\<close>

lemma init_env0:
  "APIKeyManager_init env0 =
     Inr ([LoadedApiKeys 3 [''voice'', ''completion1'', ''completion2'']],
          \<lparr>api_keys = [(''voice'', ''V''), (''completion1'', ''A''), (''completion2'', ''B'')],
           usage_tracker = Map.empty, current_key_index = 0\<rparr>)"
  by (simp add: APIKeyManager_init_def load_api_keys_def truthy_entries_def env0_def)

lemma completion_keys_eq:
  "completion_keys m = map fst (filter (\<lambda>(k, v). startswith k ''completion'') (api_keys m))"
  by (simp add: completion_keys_def filter_map comp_def case_prod_unfold)

lemma length_rotation: "length (rotation_values m) = length (completion_keys m)"
  by (simp add: completion_keys_eq rotation_values_def)

lemma member_lookup:
  assumes "distinct (map fst (api_keys m))" and "i < length (completion_keys m)"
  shows "map_of (api_keys m) (completion_keys m ! i) = Some (rotation_values m ! i)"
proof -
  let ?f = "filter (\<lambda>(k, v). startswith k ''completion'') (api_keys m)"
  from assms(2) have i: "i < length ?f"
    by (simp add: completion_keys_eq)
  then have "?f ! i \<in> set (api_keys m)"
    using nth_mem [OF i] by auto
  then have "(fst (?f ! i), snd (?f ! i)) \<in> set (api_keys m)"
    by simp
  with assms(1) have "map_of (api_keys m) (fst (?f ! i)) = Some (snd (?f ! i))"
    by (rule map_of_is_SomeI)
  with i show ?thesis
    by (simp add: completion_keys_eq rotation_values_def)
qed

lemma available_index [simp]:
  "is_key_available (m\<lparr>current_key_index := c\<rparr>) now = is_key_available m now"
  by (rule ext) (simp add: is_key_available_def)

lemma rotation_values_index [simp]:
  "rotation_values (m\<lparr>current_key_index := c\<rparr>) = rotation_values m"
  by (simp add: rotation_values_def)

lemma completion_keys_index [simp]:
  "completion_keys (m\<lparr>current_key_index := c\<rparr>) = completion_keys m"
  by (simp add: completion_keys_def)

lemma rotation_subset: "set (rotation_values m) \<subseteq> snd ` set (api_keys m)"
  by (auto simp: rotation_values_def)

lemma acquire_completion:
  assumes d: "distinct (map fst (api_keys m))"
    and ne: "\<forall>v \<in> snd ` set (api_keys m). v \<noteq> []"
    and g: "completion_keys m \<noteq> []"
  shows "get_available_key m now ''completion'' =
     (let member = rotation_values m ! (current_key_index m mod length (rotation_values m))
      in if is_key_available m now member then Some member
         else find (is_key_available m now) (map snd (api_keys m)),
      m\<lparr>current_key_index := current_key_index m + 1\<rparr>)"
proof -
  let ?i = "current_key_index m mod length (completion_keys m)"
  from g have i: "?i < length (completion_keys m)"
    by simp
  have sel: "get_key_for_service m ''completion'' =
      (Some (rotation_values m ! ?i), m\<lparr>current_key_index := current_key_index m + 1\<rparr>)"
    using g member_lookup [OF d i] by (simp add: get_key_for_service_def)
  have "rotation_values m ! ?i \<in> set (rotation_values m)"
    using i by (simp add: length_rotation)
  with ne rotation_subset have "rotation_values m ! ?i \<noteq> []"
    by blast
  then show ?thesis
    by (simp add: get_available_key_def sel length_rotation Let_def)
qed

lemma available_untracked: "usage_tracker m = Map.empty \<Longrightarrow> is_key_available m now k"
  by (simp add: is_key_available_def)

lemma acquire_each_unthrottled:
  assumes d: "distinct (map fst (api_keys m))"
    and ne: "\<forall>v \<in> snd ` set (api_keys m). v \<noteq> []"
    and g: "completion_keys m \<noteq> []"
    and u: "usage_tracker m = Map.empty"
  shows "acquire_each m ''completion'' ts =
     (map (\<lambda>i. Some (rotation_values m ! ((current_key_index m + i) mod length (rotation_values m))))
        [0..<length ts],
      m\<lparr>current_key_index := current_key_index m + length ts\<rparr>)"
  using assms
proof (induction ts arbitrary: m)
  case Nil
  then show ?case by simp
next
  case (Cons t ts)
  let ?m' = "m\<lparr>current_key_index := Suc (current_key_index m)\<rparr>"
  let ?f = "\<lambda>i. Some (rotation_values m ! ((current_key_index m + i) mod length (rotation_values m)))"
  have step: "get_available_key m t ''completion'' = (?f 0, ?m')"
    using acquire_completion [OF Cons.prems(1,2,3)] available_untracked [OF Cons.prems(4)]
    by (simp add: Let_def)
  have rest: "acquire_each ?m' ''completion'' ts =
     (map (\<lambda>i. ?f (Suc i)) [0..<length ts],
      m\<lparr>current_key_index := Suc (current_key_index m + length ts)\<rparr>)"
    using Cons.IH [of ?m'] Cons.prems by simp
  have "map ?f [0..<length (t # ts)] = ?f 0 # map (\<lambda>i. ?f (Suc i)) [0..<length ts]"
    by (simp add: map_upt_Suc del: upt_Suc)
  moreover have "acquire_each m ''completion'' (t # ts) =
      (?f 0 # map (\<lambda>i. ?f (Suc i)) [0..<length ts],
       m\<lparr>current_key_index := Suc (current_key_index m + length ts)\<rparr>)"
    by (simp add: step rest)
  ultimately show ?case
    by simp
qed

lemma rotate_nth_list:
  assumes "xs \<noteq> []"
  shows "map (\<lambda>i. xs ! ((c + i) mod length xs)) [0..<length xs] = rotate c xs"
proof (rule nth_equalityI)
  show "length (map (\<lambda>i. xs ! ((c + i) mod length xs)) [0..<length xs]) = length (rotate c xs)"
    by simp
next
  fix i assume "i < length (map (\<lambda>i. xs ! ((c + i) mod length xs)) [0..<length xs])"
  then have i: "i < length xs" by simp
  then show "map (\<lambda>i. xs ! ((c + i) mod length xs)) [0..<length xs] ! i = rotate c xs ! i"
    by (simp add: nth_rotate add.commute)
qed

text \<open>
  C5 (amended): on a well-formed key table (distinct roles, non-empty values, as
  \<open>load_api_keys\<close> builds it) with a non-empty rotation group, \<open>get_available_key\<close> for
  the completion role selects the member at index cursor mod group size, whether or not it
  is throttled, and advances the cursor by one on every call; it returns that member if it
  is available, and otherwise the first available credential of the whole pool in
  insertion order, of any role. With no throttling, \<open>k\<close> consecutive calls for a group
  of size \<open>k\<close> return the group rotated by the cursor: each member once, in stable order.
\<close>

theorem C5_round_robin:
  assumes "distinct (map fst (api_keys m))"
    and "\<forall>v \<in> snd ` set (api_keys m). v \<noteq> []"
    and "completion_keys m \<noteq> []"
  shows "get_available_key m now ''completion'' =
     (let member = rotation_values m ! (current_key_index m mod length (rotation_values m))
      in if is_key_available m now member then Some member
         else find (is_key_available m now) (map snd (api_keys m)),
      m\<lparr>current_key_index := current_key_index m + 1\<rparr>)
   \<and> (usage_tracker m = Map.empty \<longrightarrow> length ts = length (rotation_values m) \<longrightarrow>
      acquire_each m ''completion'' ts =
        (map Some (rotate (current_key_index m) (rotation_values m)),
         m\<lparr>current_key_index := current_key_index m + length (rotation_values m)\<rparr>))"
proof (intro conjI impI)
  show "get_available_key m now ''completion'' =
     (let member = rotation_values m ! (current_key_index m mod length (rotation_values m))
      in if is_key_available m now member then Some member
         else find (is_key_available m now) (map snd (api_keys m)),
      m\<lparr>current_key_index := current_key_index m + 1\<rparr>)"
    using assms by (rule acquire_completion)
next
  assume u: "usage_tracker m = Map.empty" and l: "length ts = length (rotation_values m)"
  from assms(3) have "rotation_values m \<noteq> []"
    using length_rotation [of m] by auto
  then have "map (\<lambda>i. rotation_values m ! ((current_key_index m + i) mod length (rotation_values m)))
        [0..<length (rotation_values m)] = rotate (current_key_index m) (rotation_values m)"
    by (rule rotate_nth_list)
  moreover have "map (\<lambda>i. Some (rotation_values m ! ((current_key_index m + i) mod length (rotation_values m))))
        [0..<length (rotation_values m)]
      = map Some (map (\<lambda>i. rotation_values m ! ((current_key_index m + i) mod length (rotation_values m)))
        [0..<length (rotation_values m)])"
    by (simp add: comp_def)
  ultimately have "map (\<lambda>i. Some (rotation_values m ! ((current_key_index m + i) mod length (rotation_values m))))
        [0..<length (rotation_values m)] = map Some (rotate (current_key_index m) (rotation_values m))"
    by simp
  with acquire_each_unthrottled [OF assms u, of ts] l
  show "acquire_each m ''completion'' ts =
        (map Some (rotate (current_key_index m) (rotation_values m)),
         m\<lparr>current_key_index := current_key_index m + length (rotation_values m)\<rparr>)"
    by simp
qed

theorem C5_round_robin_witness:
  "fst (get_available_key
     \<lparr>api_keys = [(''voice'', ''V''), (''completion1'', ''A''), (''completion2'', ''B'')],
      usage_tracker = Map.empty, current_key_index = 3\<rparr> 0 ''completion'') = Some ''B''
   \<and> fst (acquire_each
     \<lparr>api_keys = [(''voice'', ''V''), (''completion1'', ''A''), (''completion2'', ''B'')],
      usage_tracker = Map.empty, current_key_index = 3\<rparr> ''completion'' [0, 5])
     = [Some ''B'', Some ''A'']"
proof -
  let ?m = "\<lparr>api_keys = [(''voice'', ''V''), (''completion1'', ''A''), (''completion2'', ''B'')],
      usage_tracker = Map.empty, current_key_index = 3\<rparr>"
  have d: "distinct (map fst (api_keys ?m))" by simp
  have n: "\<forall>v \<in> snd ` set (api_keys ?m). v \<noteq> []" by simp
  have c: "completion_keys ?m \<noteq> []" by (simp add: completion_keys_def startswith_def)
  have r: "rotation_values ?m = [''A'', ''B'']"
    by (simp add: rotation_values_def startswith_def)
  have rot: "rotate 3 [''A'', ''B''] = [''B'', ''A'']"
    by code_simp
  have sel: "[''A'', ''B''] ! (3 mod length [''A'', ''B'']) = ''B''"
    by code_simp
  have av: "is_key_available ?m 0 ''B''"
    by (simp add: is_key_available_def)
  have u: "usage_tracker ?m = Map.empty" by simp
  have l: "length [0, 5 :: rat] = length (rotation_values ?m)"
    unfolding r by simp
  note t = C5_round_robin [OF d n c, of 0 "[0, 5]"]
  have one: "fst (get_available_key ?m 0 ''completion'') = Some ''B''"
    using conjunct1 [OF t] av unfolding r Let_def api_key_manager.select_convs sel
    by (simp only: fst_conv if_True)
  have two: "fst (acquire_each ?m ''completion'' [0, 5]) = [Some ''B'', Some ''A'']"
    using conjunct2 [OF t, rule_format, OF u l] unfolding r api_key_manager.select_convs rot
    by (simp only: fst_conv list.map)
  from one two show ?thesis ..
qed

text \<open>
  C5 as stated fails when the selected member is throttled: the call does not move on to
  the next available member of the rotation group (\<open>B\<close>, available) but returns the first
  available key of the whole pool, here the voice key \<open>V\<close>, which is no member of the
  group.
\<close>

theorem C5_throttled_counterexample:
  "fst (get_available_key throttled_pool 0 ''completion'') = Some ''V''
   \<and> ''V'' \<notin> set (rotation_values throttled_pool)
   \<and> ''B'' \<in> set (rotation_values throttled_pool)
   \<and> is_key_available throttled_pool 0 ''B''"
  by (simp add: throttled_pool_def get_available_key_def get_key_for_service_def
      completion_keys_def rotation_values_def startswith_def mark_rate_limited_def
      is_key_available_def)


text \<open>
  C3 as stated fails: with no credential configured the constructor prints its diagnostic
  and returns the pool object normally; nothing is raised.
\<close>

theorem C3_empty_pool_counterexample:
  "APIKeyManager_init (\<lambda>n. None) =
     Inr ([NoApiKeysFound], \<lparr>api_keys = [], usage_tracker = Map.empty, current_key_index = 0\<rparr>)
   \<and> \<not> isl (APIKeyManager_init (\<lambda>n. None))"
  by (simp add: APIKeyManager_init_def load_api_keys_def truthy_entries_def)

lemma acquire_empty:
  "get_available_key \<lparr>api_keys = [], usage_tracker = Map.empty, current_key_index = 0\<rparr> now service
     = (None, \<lparr>api_keys = [], usage_tracker = Map.empty, current_key_index = 0\<rparr>)"
  by (simp add: get_available_key_def get_key_for_service_def completion_keys_def first_value_def)

text \<open>
  C3 (amended): if none of the five credential variables holds a non-empty value, the
  construction of the pool prints the "no API keys found" diagnostic and completes
  normally with an empty key table; no error is raised, and every later acquire on that
  pool returns \<open>None\<close>.
\<close>

theorem C3_empty_pool:
  assumes "\<forall>n \<in> {''GOOGLE_API_KEY_VOICE'', ''GOOGLE_API_KEY_FLASH'', ''GOOGLE_API_KEY_1'',
                  ''GOOGLE_API_KEY_2'', ''GOOGLE_API_KEY_3''}.
             getenv n = None \<or> getenv n = Some []"
  shows "APIKeyManager_init getenv =
     Inr ([NoApiKeysFound], \<lparr>api_keys = [], usage_tracker = Map.empty, current_key_index = 0\<rparr>)
   \<and> get_available_key
        \<lparr>api_keys = [], usage_tracker = Map.empty, current_key_index = 0\<rparr> now service
     = (None, \<lparr>api_keys = [], usage_tracker = Map.empty, current_key_index = 0\<rparr>)"
proof -
  have e: "(case v of None \<Rightarrow> [] | Some s \<Rightarrow> if s = [] then [] else [(k, s)]) = []"
    if "v = None \<or> v = Some []" for v :: "string option" and k :: string
    using that by auto
  from assms have "fst (load_api_keys getenv) = []"
    by (simp add: load_api_keys_def truthy_entries_def e)
  then have "load_api_keys getenv = ([], [NoApiKeysFound])"
    by (simp add: load_api_keys_def Let_def split: if_splits)
  then show ?thesis
    by (simp add: APIKeyManager_init_def acquire_empty)
qed

theorem C3_empty_pool_witness:
  "APIKeyManager_init (\<lambda>n. if n = ''GOOGLE_API_KEY_1'' then Some [] else None) =
     Inr ([NoApiKeysFound], \<lparr>api_keys = [], usage_tracker = Map.empty, current_key_index = 0\<rparr>)
   \<and> get_available_key
        \<lparr>api_keys = [], usage_tracker = Map.empty, current_key_index = 0\<rparr> 0 ''completion''
     = (None, \<lparr>api_keys = [], usage_tracker = Map.empty, current_key_index = 0\<rparr>)"
  using C3_empty_pool [of "\<lambda>n. if n = ''GOOGLE_API_KEY_1'' then Some [] else None" 0 "''completion''"]
  by simp


section \<open>Properties: action directive parser\<close>

lemma startswith_append:
  assumes "startswith s (p @ q)"
  shows "startswith s p"
proof -
  from assms have e: "take (length (p @ q)) s = p @ q"
    by (simp add: startswith_def)
  have "take (length p) s = take (length p) (take (length (p @ q)) s)"
    by (simp add: min_def)
  also have "\<dots> = p"
    unfolding e by simp
  finally show ?thesis
    by (simp add: startswith_def)
qed

lemma bold_see_is_bold: "startswith s ''**See:**'' \<Longrightarrow> startswith s ''**''"
  using startswith_append [of s "''**''" "''See:**''"] by simp

lemma parse_lines_fallback:
  assumes "\<forall>raw \<in> set raws. \<not> is_action_label (strip raw)"
  shows "snd (parse_lines raws see) = first_fallback see raws"
  using assms
proof (induction raws arbitrary: see)
  case Nil
  then show ?case by (simp add: first_fallback_def)
next
  case (Cons raw raws)
  let ?line = "strip raw"
  from Cons.prems have a: "\<not> startswith ?line ''Action:''"
    and b: "\<not> startswith ?line ''**Action:**''"
    by (simp_all add: is_action_label_def)
  from Cons have IH: "snd (parse_lines raws s) = first_fallback s raws" for s
    by simp
  consider (see) "startswith ?line ''See:''"
    | (bold) "\<not> startswith ?line ''See:''" "startswith ?line ''**See:**''"
    | (hit) "\<not> startswith ?line ''See:''" "\<not> startswith ?line ''**See:**''"
        "see = [] \<and> scannable ?line"
    | (miss) "\<not> startswith ?line ''See:''" "\<not> startswith ?line ''**See:**''"
        "\<not> (see = [] \<and> scannable ?line)"
    by blast
  then show ?case
  proof cases
    case see
    then show ?thesis
      using a b IH [of "strip (drop 4 ?line)"]
      by (simp add: Let_def first_fallback_def see_update_def scannable_def)
  next
    case bold
    then show ?thesis
      using a b IH [of "strip (drop 8 ?line)"] bold_see_is_bold [of ?line]
      by (simp add: Let_def first_fallback_def see_update_def scannable_def)
  next
    case hit
    then show ?thesis
      using a b
      by (simp add: Let_def first_fallback_def see_update_def scannable_def mentions_command_def)
  next
    case miss
    then show ?thesis
      using a b IH [of see]
      by (auto simp: Let_def first_fallback_def see_update_def scannable_def mentions_command_def)
  qed
qed

lemma strip_Nil: "strip [] = []"
  by (simp add: strip_def)

text \<open>
  C6 (amended): for every (ASCII) reply with no labeled action line, the loop accepts as
  the action the first line (stripped) that is read while no non-empty observation text
  is recorded, is not itself an observation line, does not start with two asterisks, and
  contains one of the seven names \<open>left_click\<close>, \<open>type_text\<close>, \<open>bulk_type\<close>, \<open>hotkey\<close>,
  \<open>done\<close>, \<open>wait\<close>, \<open>scroll\<close> as a substring; when there is no such line the action stays
  empty. Lines read after a non-empty observation are not scanned. \<open>think\<close> returns the
  accepted line without its backticks, stripped, or \<open>wait(1000)\<close> when nothing is left.
\<close>

theorem C6_fallback_scan:
  assumes "is_ascii reply"
    and "\<forall>raw \<in> set (split_lines (strip reply)). \<not> is_action_label (strip raw)"
  shows "snd (parse_lines (split_lines (strip reply)) []) =
       first_fallback [] (split_lines (strip reply))
     \<and> fst (think task (Inr reply) see) =
       (let action = strip (filter (\<lambda>c. c \<noteq> CHR 0x60)
                              (first_fallback [] (split_lines (strip reply))))
        in if action = [] then ''wait(1000)'' else action)"
proof -
  have a: "snd (parse_lines (split_lines (strip reply)) []) =
       first_fallback [] (split_lines (strip reply))"
    using assms(2) by (rule parse_lines_fallback)
  obtain s where p: "parse_lines (split_lines (strip reply)) []
      = (s, first_fallback [] (split_lines (strip reply)))"
    using a by (cases "parse_lines (split_lines (strip reply)) []") simp
  have "fst (think task (Inr reply) see) =
       (let action = strip (filter (\<lambda>c. c \<noteq> CHR 0x60)
                              (first_fallback [] (split_lines (strip reply))))
        in if action = [] then ''wait(1000)'' else action)"
    by (simp add: think_def parse_reply_def p Let_def strip_Nil)
  with a show ?thesis
    by simp
qed

theorem C6_fallback_scan_witness:
  \<open>snd (parse_lines (split_lines (strip ''I think so\<newline>now `hotkey("cmd+t")` please'')) [])
     = ''now `hotkey("cmd+t")` please''
   \<and> fst (think ''open a tab'' (Inr ''I think so\<newline>now `hotkey("cmd+t")` please'') '''')
     = ''now hotkey("cmd+t") please''\<close>
proof -
  have i: \<open>is_ascii ''I think so\<newline>now `hotkey("cmd+t")` please''\<close>
    by code_simp
  have n: \<open>\<forall>raw \<in> set (split_lines (strip ''I think so\<newline>now `hotkey("cmd+t")` please'')).
             \<not> is_action_label (strip raw)\<close>
    by code_simp
  have f: \<open>first_fallback [] (split_lines (strip ''I think so\<newline>now `hotkey("cmd+t")` please''))
     = ''now `hotkey("cmd+t")` please''\<close>
    by code_simp
  have g: \<open>strip (filter (\<lambda>c. c \<noteq> CHR 0x60) ''now `hotkey("cmd+t")` please'')
     = ''now hotkey("cmd+t") please''\<close>
    by code_simp
  from C6_fallback_scan [OF i n, of "''open a tab''" "''''"] show ?thesis
    unfolding f g Let_def by simp
qed

text \<open>
  C6 as stated fails: this reply has no labeled action line, and its second line contains
  the name \<open>left_click\<close>; but a non-empty observation was recorded on the first line, the
  fallback is then switched off, and the reply resolves to \<open>wait(1000)\<close>.
\<close>

theorem C6_observation_blocks_counterexample:
  "parse_reply ''See: Safari open\<newline>left_click(0.5, 0.5)'' = (''Safari open'', ''wait(1000)'')
   \<and> \<not> is_action_label ''See: Safari open''
   \<and> \<not> is_action_label ''left_click(0.5, 0.5)''
   \<and> mentions_command ''left_click(0.5, 0.5)''"
  by code_simp


lemma parse_reply_unparsable: "unparsable reply \<Longrightarrow> snd (parse_reply reply) = ''wait(1000)''"
proof -
  assume u: "unparsable reply"
  then have "snd (parse_lines (split_lines (strip reply)) []) = []"
    using parse_lines_fallback [of "split_lines (strip reply)" "[]"]
    by (simp add: unparsable_def)
  then show ?thesis
    by (auto simp: parse_reply_def split: prod.splits)
qed

lemma no_mention_unparsable:
  assumes "\<forall>raw \<in> set (split_lines (strip reply)).
             \<not> is_action_label (strip raw) \<and> \<not> mentions_command (strip raw)"
  shows "unparsable reply"
proof -
  have "filter (\<lambda>(s, line). s = [] \<and> scannable line) (zip states (map strip raws)) = []"
    if "\<forall>raw \<in> set raws. \<not> mentions_command (strip raw)" for states raws
  proof -
    have "\<not> scannable line" if "(s, line) \<in> set (zip states (map strip raws))" for s line
    proof -
      from that have "line \<in> set (map strip raws)"
        by (rule set_zip_rightD)
      with \<open>\<forall>raw \<in> set raws. \<not> mentions_command (strip raw)\<close> show ?thesis
        by (auto simp: scannable_def)
    qed
    then show ?thesis
      by (auto simp: filter_empty_conv)
  qed
  from this [of "split_lines (strip reply)" "see_states [] (split_lines (strip reply))"] assms
  have "filter (\<lambda>(s, line). s = [] \<and> scannable line)
          (zip (see_states [] (split_lines (strip reply)))
               (map strip (split_lines (strip reply)))) = []"
    by blast
  then have "first_fallback [] (split_lines (strip reply)) = []"
    unfolding first_fallback_def by simp
  with assms show ?thesis
    by (simp add: unparsable_def)
qed

lemma parse_reply_nonempty: "snd (parse_reply reply) \<noteq> []"
  by (auto simp: parse_reply_def Let_def split: prod.splits)

lemma execute_wait: "execute ''wait(1000)'' = ([CallSleep 1], False)"
  by code_simp

lemma execute_done: "execute ''done()'' = ([], True)"
  by code_simp

lemma think_unparsable:
  "unparsable reply \<Longrightarrow> fst (think task (Inr reply) see) = ''wait(1000)''
     \<and> fst (snd (think task (Inr reply) see)) = []"
  using parse_reply_unparsable [of reply]
  by (auto simp: think_def split: prod.splits)

text \<open>
  C7: an (ASCII) reply in which neither a labeled action line nor a fallback match is
  found parses to the action text \<open>wait(1000)\<close>, which \<open>execute\<close> runs as a sleep of one
  second (1000 ms) without ending the task; this covers every reply none of whose lines
  is a labeled action line or mentions a command name. Whatever the reply, the parsed
  action text is never empty.
\<close>

theorem C7_unparsable_waits:
  assumes "is_ascii reply" and "unparsable reply"
  shows "fst (think task (Inr reply) see) = ''wait(1000)''
     \<and> execute (fst (think task (Inr reply) see)) = ([CallSleep 1], False)
     \<and> fst (think task (Inr other) see) \<noteq> []
     \<and> ((\<forall>raw \<in> set (split_lines (strip other)).
            \<not> is_action_label (strip raw) \<and> \<not> mentions_command (strip raw))
          \<longrightarrow> unparsable other)"
proof -
  from assms(2) have w: "fst (think task (Inr reply) see) = ''wait(1000)''"
    using think_unparsable by blast
  have "fst (think task (Inr other) see) \<noteq> []"
    using parse_reply_nonempty [of other] by (auto simp: think_def split: prod.splits)
  with w show ?thesis
    using no_mention_unparsable [of other] by (simp add: execute_wait)
qed

lemma unparsable_example: "unparsable ''I am not sure what to do''"
  by code_simp

lemma ascii_example: "is_ascii ''I am not sure what to do''"
  by code_simp

theorem C7_unparsable_waits_witness:
  "fst (think ''open notes'' (Inr ''I am not sure what to do'') '''') = ''wait(1000)''
   \<and> execute (fst (think ''open notes'' (Inr ''I am not sure what to do'') ''''))
       = ([CallSleep 1], False)"
  using C7_unparsable_waits [OF ascii_example unparsable_example, of "''open notes''" "''''" "''''"]
  by blast

section \<open>Properties: control loop\<close>

lemma run_steps_unparsable:
  assumes "\<forall>step \<in> set steps. truthy (capture step)
             \<and> debug_dump dump step (capture step) = None
             \<and> (\<exists>reply. model step = Inr reply \<and> unparsable reply)"
  shows "run_steps task dump capture model see steps =
     (Inr (),
      concat (replicate (length steps) [Thought ''wait(1000)'', Called (CallSleep 1), Slept 1])
      @ [Finished])"
  using assms
proof (induction steps arbitrary: see)
  case Nil
  then show ?case by simp
next
  case (Cons step steps)
  then obtain reply where cap: "truthy (capture step)"
    and d: "debug_dump dump step (capture step) = None"
    and m: "model step = Inr reply" and u: "unparsable reply"
    by auto
  obtain see' where t: "think task (model step) see = (''wait(1000)'', [], see')"
    using think_unparsable [OF u, of task see] m
    by (cases "think task (Inr reply) see") auto
  from Cons have rest: "run_steps task dump capture model see' steps =
     (Inr (),
      concat (replicate (length steps) [Thought ''wait(1000)'', Called (CallSleep 1), Slept 1])
      @ [Finished])"
    by simp
  show ?case
    using cap by (simp add: d t execute_wait rest)
qed

lemma iterations_append: "iterations (xs @ ys) = iterations xs + iterations ys"
  by (simp add: iterations_def)

lemma iterations_rounds:
  "iterations (concat (replicate n [Thought a, Called c, Slept d])) = n"
  by (induction n) (simp_all add: iterations_def)

lemma complete_not_in_rounds:
  "TaskComplete \<notin> set (concat (replicate n [Thought a, Called c, Slept d]))"
  by (induction n) simp_all

lemma run_done_first:
  assumes "truthy (capture 0)" and "debug_dump dump 0 (capture 0) = None"
  shows "run task dump capture (\<lambda>step. Inr ''Action: done()'')
     = (Inr (), [Thought ''done()'', TaskComplete, Finished])"
proof -
  have p: "parse_reply ''Action: done()'' = ([], ''done()'')"
    by code_simp
  have "[0..<20] = 0 # [1..<20]"
    by (simp add: upt_rec)
  then show ?thesis
    using assms by (simp add: run_def think_def p execute_done)
qed

text \<open>
  C8 (amended): with a screen capture that always succeeds (a non-empty screenshot whose
  debug dump in the first iteration does not raise) and a model whose every reply is
  (ASCII and) unparsable, \<open>run\<close> performs exactly 20 iterations (each: think, a one-second
  wait action, the inter-step sleep) and then leaves the loop and returns. It never
  prints "Task complete!", which a run ended by \<open>done()\<close> does print; but \<open>run\<close> returns
  \<open>None\<close> on either path, so what the caller receives is the same in both cases.
\<close>

theorem C8_budget_exhausted:
  assumes "\<forall>step \<in> set [0..<20]. truthy (capture step)
             \<and> debug_dump dump step (capture step) = None
             \<and> (\<exists>reply. model step = Inr reply \<and> is_ascii reply \<and> unparsable reply)"
  shows "run task dump capture model =
       (Inr (),
        concat (replicate 20 [Thought ''wait(1000)'', Called (CallSleep 1), Slept 1])
        @ [Finished])
     \<and> iterations (snd (run task dump capture model)) = 20
     \<and> TaskComplete \<notin> set (snd (run task dump capture model))
     \<and> run task dump capture (\<lambda>step. Inr ''Action: done()'')
         = (Inr (), [Thought ''done()'', TaskComplete, Finished])
     \<and> fst (run task dump capture model)
         = fst (run task dump capture (\<lambda>step. Inr ''Action: done()''))"
proof -
  from assms have h: "\<forall>step \<in> set [0..<20]. truthy (capture step)
             \<and> debug_dump dump step (capture step) = None
             \<and> (\<exists>reply. model step = Inr reply \<and> unparsable reply)"
    by blast
  have tr: "run task dump capture model =
       (Inr (),
        concat (replicate 20 [Thought ''wait(1000)'', Called (CallSleep 1), Slept 1])
        @ [Finished])"
    using run_steps_unparsable [OF h, of task "[]"] by (simp add: run_def)
  have it: "iterations (snd (run task dump capture model)) = 20"
    unfolding tr snd_conv iterations_append iterations_rounds by (simp add: iterations_def)
  have nc: "TaskComplete \<notin> set (snd (run task dump capture model))"
    unfolding tr snd_conv using complete_not_in_rounds [of 20] by simp
  from assms have "truthy (capture 0)" and "debug_dump dump 0 (capture 0) = None"
    by simp_all
  then have dn: "run task dump capture (\<lambda>step. Inr ''Action: done()'')
         = (Inr (), [Thought ''done()'', TaskComplete, Finished])"
    by (rule run_done_first)
  have "fst (run task dump capture model)
         = fst (run task dump capture (\<lambda>step. Inr ''Action: done()''))"
    unfolding tr dn by simp
  with tr it nc dn show ?thesis
    by blast
qed

lemma quiet_example:
  "\<forall>step \<in> set [0..<20]. truthy ((\<lambda>step. Some ''jpeg'') step)
      \<and> debug_dump (\<lambda>shot. None) step ((\<lambda>step. Some ''jpeg'') step) = None
      \<and> (\<exists>reply. (\<lambda>step. Inr ''I am not sure what to do'') step = Inr reply
            \<and> is_ascii reply \<and> unparsable reply)"
  using unparsable_example ascii_example by (simp add: truthy_def debug_dump_def)

theorem C8_budget_exhausted_witness:
  "iterations (snd (run ''open notes'' (\<lambda>shot. None) (\<lambda>step. Some ''jpeg'')
                      (\<lambda>step. Inr ''I am not sure what to do''))) = 20
   \<and> TaskComplete \<notin> set (snd (run ''open notes'' (\<lambda>shot. None) (\<lambda>step. Some ''jpeg'')
                      (\<lambda>step. Inr ''I am not sure what to do'')))"
  using C8_budget_exhausted [OF quiet_example, of "''open notes''"]
  by blast

text \<open>
  C8 as stated fails on its last part: the budget-exhausted run (20 iterations) and a run
  ended by \<open>done()\<close> in its first iteration hand the same value, \<open>None\<close>, to the caller.
\<close>

theorem C8_same_return_counterexample:
  "fst (run ''open notes'' (\<lambda>shot. None) (\<lambda>step. Some ''jpeg'')
          (\<lambda>step. Inr ''I am not sure what to do''))
     = fst (run ''open notes'' (\<lambda>shot. None) (\<lambda>step. Some ''jpeg'')
              (\<lambda>step. Inr ''Action: done()''))
   \<and> iterations (snd (run ''open notes'' (\<lambda>shot. None) (\<lambda>step. Some ''jpeg'')
                        (\<lambda>step. Inr ''I am not sure what to do''))) = 20
   \<and> iterations (snd (run ''open notes'' (\<lambda>shot. None) (\<lambda>step. Some ''jpeg'')
                        (\<lambda>step. Inr ''Action: done()''))) = 1"
proof -
  have u: "\<forall>step \<in> set [0..<20]. truthy ((\<lambda>step. Some ''jpeg'') step)
      \<and> debug_dump (\<lambda>shot. None) step ((\<lambda>step. Some ''jpeg'') step) = None
      \<and> (\<exists>reply. (\<lambda>step. Inr ''I am not sure what to do'') step = Inr reply
            \<and> unparsable reply)"
    using unparsable_example by (simp add: truthy_def debug_dump_def)
  have a: "run ''open notes'' (\<lambda>shot. None) (\<lambda>step. Some ''jpeg'')
          (\<lambda>step. Inr ''I am not sure what to do'')
      = (Inr (),
         concat (replicate 20 [Thought ''wait(1000)'', Called (CallSleep 1), Slept 1])
         @ [Finished])"
    using run_steps_unparsable [OF u, of "''open notes''" "[]"] by (simp add: run_def)
  have b: "run ''open notes'' (\<lambda>shot. None) (\<lambda>step. Some ''jpeg'')
          (\<lambda>step. Inr ''Action: done()'')
      = (Inr (), [Thought ''done()'', TaskComplete, Finished])"
    by (rule run_done_first) (simp_all add: truthy_def debug_dump_def)
  have c: "iterations (concat (replicate 20 [Thought ''wait(1000)'', Called (CallSleep 1), Slept 1])
         @ [Finished]) = 20"
    unfolding iterations_append iterations_rounds by (simp add: iterations_def)
  have d: "iterations [Thought ''done()'', TaskComplete, Finished] = 1"
    by (simp add: iterations_def)
  show ?thesis
    unfolding a b fst_conv snd_conv c d by simp
qed

text \<open>
  C2 at a concrete input: the task "open notes" and a model call that fails with a rate
  limit message suggesting 12.5 seconds. \<open>think\<close> sleeps 13.5 seconds (the duration plus
  the one-second buffer) and then returns \<open>done()\<close>; \<open>execute\<close> reports completion and
  \<open>run\<close> stops after this single iteration, without another model attempt. Only a task
  that names a browser and a search gets a further iteration.
\<close>

theorem C2_rate_limit_ends_task:
  \<open>think ''open notes'' (Inl ''429 RESOURCE_EXHAUSTED. Please retry in 12.5s.'') ''''
     = (''done()'', [27 / 2], '''')
   \<and> think ''open notes'' (Inl ''429 Too Many Requests'') '''' = (''done()'', [10], '''')
   \<and> run ''open notes'' (\<lambda>shot. None) (\<lambda>step. Some ''jpeg'')
        (\<lambda>step. Inl ''429 RESOURCE_EXHAUSTED. Please retry in 12.5s.'')
     = (Inr (), [Slept (27 / 2), Thought ''done()'', TaskComplete, Finished])
   \<and> think ''search cats in safari'' (Inl ''429 RESOURCE_EXHAUSTED. Please retry in 12.5s.'') ''''
     = (''hotkey("cmd+t")'', [27 / 2], '''')\<close>
proof -
  have a: "think ''open notes'' (Inl ''429 RESOURCE_EXHAUSTED. Please retry in 12.5s.'') ''''
     = (''done()'', [27 / 2], '''')"
    by code_simp
  have b: "think ''open notes'' (Inl ''429 Too Many Requests'') '''' = (''done()'', [10], '''')"
    by code_simp
  have "[0..<20] = 0 # [1..<20]"
    by (simp add: upt_rec)
  then have c: "run ''open notes'' (\<lambda>shot. None) (\<lambda>step. Some ''jpeg'')
        (\<lambda>step. Inl ''429 RESOURCE_EXHAUSTED. Please retry in 12.5s.'')
     = (Inr (), [Slept (27 / 2), Thought ''done()'', TaskComplete, Finished])"
    by (simp add: run_def a execute_done truthy_def debug_dump_def)
  have d: \<open>think ''search cats in safari'' (Inl ''429 RESOURCE_EXHAUSTED. Please retry in 12.5s.'') ''''
     = (''hotkey("cmd+t")'', [27 / 2], '''')\<close>
    by code_simp
  from a b c d show ?thesis
    by blast
qed

section \<open>Properties: argument extraction\<close>

lemma coords_at_needs_paren: "c \<noteq> CHR ''('' \<Longrightarrow> coords_at (c # cs) = None"
  by (simp add: coords_at_def)

lemma coords_search_skip:
  "CHR ''('' \<notin> set pre \<Longrightarrow> coords_search (pre @ s) = coords_search s"
  by (induction pre) (auto simp: coords_at_needs_paren)

lemma coords_search_no_paren: "CHR ''('' \<notin> set s \<Longrightarrow> coords_search s = None"
  using coords_search_skip [of s "[]"] by simp

lemma coords_at_minus_first: "coords_at (CHR ''('' # CHR ''-'' # rest) = None"
  by (simp add: coords_at_def is_coord_char_def is_digit_def)

lemma coords_at_minus_second:
  assumes "CHR '','' \<notin> set a" and "list_all is_space sp"
  shows "coords_at (CHR ''('' # a @ CHR '','' # sp @ CHR ''-'' # rest) = None"
proof (cases "list_all is_coord_char a")
  case True
  then have all: "\<forall>c \<in> set a. is_coord_char c"
    by (simp add: list_all_iff)
  have nc: "\<not> is_coord_char (CHR '','')"
    by (simp add: is_coord_char_def is_digit_def)
  have g1: "takeWhile is_coord_char (a @ CHR '','' # sp @ CHR ''-'' # rest) = a"
    using all nc by (simp add: takeWhile_append2)
  have r1: "dropWhile is_coord_char (a @ CHR '','' # sp @ CHR ''-'' # rest)
      = CHR '','' # sp @ CHR ''-'' # rest"
    using all nc by (simp add: dropWhile_append2)
  have ns: "\<not> is_space (CHR ''-'')"
    by (simp add: is_space_def)
  from assms(2) have "\<forall>c \<in> set sp. is_space c"
    by (simp add: list_all_iff)
  then have r3: "dropWhile is_space (sp @ CHR ''-'' # rest) = CHR ''-'' # rest"
    using ns by (simp add: dropWhile_append2)
  have nm: "\<not> is_coord_char (CHR ''-'')"
    by (simp add: is_coord_char_def is_digit_def)
  show ?thesis
    by (simp add: coords_at_def g1 r1 r3 nm Let_def)
next
  case False
  then obtain c where c: "c \<in> set a" "\<not> is_coord_char c"
    by (auto simp: list_all_iff)
  then have tw: "takeWhile is_coord_char (a @ CHR '','' # sp @ CHR ''-'' # rest)
      = takeWhile is_coord_char a"
    by (simp add: takeWhile_append1)
  from c have dw: "dropWhile is_coord_char (a @ CHR '','' # sp @ CHR ''-'' # rest)
      = dropWhile is_coord_char a @ CHR '','' # sp @ CHR ''-'' # rest"
    by (simp add: dropWhile_append1)
  from c have ne: "dropWhile is_coord_char a \<noteq> []"
    by (auto simp: dropWhile_eq_Nil_conv)
  then obtain d ds where d: "dropWhile is_coord_char a = d # ds"
    by (cases "dropWhile is_coord_char a") auto
  then have "d \<in> set a"
    by (metis list.set_intros(1) set_dropWhileD)
  with assms(1) have "d \<noteq> CHR '',''"
    by auto
  then show ?thesis
    by (simp add: coords_at_def tw dw d Let_def)
qed

lemma py_float_nonneg: "py_float s = Inr v \<Longrightarrow> 0 \<le> v"
  by (auto simp: py_float_def Let_def split: list.splits if_splits)

lemma extract_coords_Some:
  assumes "extract_coords text = Inr (Some (x, y))"
  shows "\<exists>g1 g2 vx vy. coords_search text = Some (g1, g2)
           \<and> py_float g1 = Inr vx \<and> py_float g2 = Inr vy
           \<and> 0 \<le> vx \<and> 0 \<le> vy \<and> x = min 1 vx \<and> y = min 1 vy"
proof -
  from assms obtain g1 g2 vx vy where s: "coords_search text = Some (g1, g2)"
    and fx: "py_float g1 = Inr vx" and fy: "py_float g2 = Inr vy"
    and xy: "x = clamp_ratio vx" "y = clamp_ratio vy"
    by (auto simp: extract_coords_def split: option.splits sum.splits)
  from fx fy have "0 \<le> vx" "0 \<le> vy"
    by (auto dest: py_float_nonneg)
  with s fx fy xy show ?thesis
    by (auto simp: clamp_ratio_def)
qed

lemma skipped_pointer_action:
  assumes "extract_coords (name @ rest) = Inr None"
    and "name \<in> {''move_mouse'', ''left_click'', ''double_click'', ''hover''}"
  shows "execute (name @ rest) = ([], False)"
  using assms by (auto simp: execute_def startswith_def with_coords_def)

text \<open>
  C10 as stated fails for an action text that carries a second parenthesized pair: the
  search skips the negative pair and matches the later unsigned one, and the click is
  executed there.
\<close>

theorem C10_later_pair_counterexample:
  "extract_coords ''left_click(-0.2, 1.4) # clamp to (0.0, 1.0)'' = Inr (Some (0, 1))
   \<and> execute ''left_click(-0.2, 1.4) # clamp to (0.0, 1.0)'' = ([CallLeftClick 0 1], False)"
  by code_simp

text \<open>
  C10 (amended): an (ASCII) action text of the call form \<open>name(a, b)\<close> with a single
  opening parenthesis, whose first or second coordinate starts with a minus sign, yields
  no coordinates, and \<open>execute\<close> skips the pointer action: no call is made and nothing is
  reported. Whenever coordinates are extracted, from any (ASCII) text, the two numbers
  read by \<open>float\<close> are non-negative, so the clamp only ever caps them at 1.
\<close>

theorem C10_negative_coords_skipped:
  assumes "is_ascii text"
    and "text = name @ ''(-'' @ rest
           \<or> (text = name @ ''('' @ a @ '','' @ sp @ ''-'' @ rest
               \<and> CHR '','' \<notin> set a \<and> list_all is_space sp
               \<and> CHR ''('' \<notin> set a \<and> CHR ''('' \<notin> set sp)"
    and "CHR ''('' \<notin> set name" and "CHR ''('' \<notin> set rest"
    and "name \<in> {''move_mouse'', ''left_click'', ''double_click'', ''hover''}"
  shows "extract_coords text = Inr None
     \<and> execute text = ([], False)
     \<and> (is_ascii other \<longrightarrow> extract_coords other = Inr (Some (x, y)) \<longrightarrow>
          (\<exists>g1 g2 vx vy. coords_search other = Some (g1, g2)
             \<and> py_float g1 = Inr vx \<and> py_float g2 = Inr vy
             \<and> 0 \<le> vx \<and> 0 \<le> vy \<and> x = min 1 vx \<and> y = min 1 vy))"
proof -
  have none: "coords_search text = None"
    using assms(2)
  proof
    assume t: "text = name @ ''(-'' @ rest"
    have "coords_search (CHR ''('' # CHR ''-'' # rest) = coords_search (CHR ''-'' # rest)"
      by (simp add: coords_at_minus_first)
    also have "\<dots> = None"
      using assms(4) by (intro coords_search_no_paren) simp
    finally show ?thesis
      using coords_search_skip [OF assms(3), of "CHR ''('' # CHR ''-'' # rest"] t by simp
  next
    assume "text = name @ ''('' @ a @ '','' @ sp @ ''-'' @ rest
               \<and> CHR '','' \<notin> set a \<and> list_all is_space sp
               \<and> CHR ''('' \<notin> set a \<and> CHR ''('' \<notin> set sp"
    then have t: "text = name @ CHR ''('' # a @ CHR '','' # sp @ CHR ''-'' # rest"
      and ca: "CHR '','' \<notin> set a" and ws: "list_all is_space sp"
      and pa: "CHR ''('' \<notin> set a" and ps: "CHR ''('' \<notin> set sp"
      by simp_all
    have "coords_search (CHR ''('' # a @ CHR '','' # sp @ CHR ''-'' # rest)
        = coords_search (a @ CHR '','' # sp @ CHR ''-'' # rest)"
      by (simp add: coords_at_minus_second [OF ca ws])
    also have "\<dots> = None"
      using pa ps assms(4) by (intro coords_search_no_paren) simp
    finally show ?thesis
      using coords_search_skip [OF assms(3), of "CHR ''('' # a @ CHR '','' # sp @ CHR ''-'' # rest"] t
      by simp
  qed
  then have ex: "extract_coords text = Inr None"
    by (simp add: extract_coords_def)
  from assms(2) obtain body where "text = name @ body"
    by auto
  with ex assms(5) have "execute text = ([], False)"
    using skipped_pointer_action [of name body] by simp
  with ex show ?thesis
    using extract_coords_Some [of other x y] by blast
qed

theorem C10_negative_coords_skipped_witness:
  "extract_coords ''left_click(-0.2, 1.4)'' = Inr None
   \<and> execute ''left_click(-0.2, 1.4)'' = ([], False)"
proof -
  have i: "is_ascii ''left_click(-0.2, 1.4)''"
    by code_simp
  have "''left_click(-0.2, 1.4)'' = ''left_click'' @ ''(-'' @ ''0.2, 1.4)''
      \<or> (''left_click(-0.2, 1.4)'' = ''left_click'' @ ''('' @ [] @ '','' @ [] @ ''-'' @ ''0.2, 1.4)''
          \<and> CHR '','' \<notin> set [] \<and> list_all is_space []
          \<and> CHR ''('' \<notin> set [] \<and> CHR ''('' \<notin> set [])"
    by simp
  from C10_negative_coords_skipped [OF i this, of "''left_click(0.2, 1.4)''" "1 / 5" 1]
  show ?thesis
    by simp
qed


end
